theory Spec2Isabelle
  imports
    Main
    "HOL-Library.Char_ord"
    "HOL-Library.List_Lexorder"
    "HOL-Library.Option_ord"
    "HOL-Library.Multiset"
    "HOL-Library.Log_Nat"
begin

section \<open>Python values\<close>

text \<open>
  Text is a list of characters; a character stands for a code point below 256.
  A dictionary lookup \<^verbatim>\<open>d.get(k)\<close> is an optional value: \<open>None\<close> is both the
  absent key and the stored \<^verbatim>\<open>None\<close>, which \<^verbatim>\<open>get\<close> does not tell apart.
  Timestamps are the ISO strings the code stores.
\<close>

type_synonym timestamp = string

text \<open>Truth value of an optional string: \<^verbatim>\<open>None\<close> and \<^verbatim>\<open>''\<close> are false.\<close>

definition truthy :: "string option \<Rightarrow> bool" where
  "truthy x = (case x of None \<Rightarrow> False | Some s \<Rightarrow> s \<noteq> [])"

text \<open>\<^verbatim>\<open>a or b\<close>: the first operand when it is true, otherwise the second.\<close>

definition py_or :: "string option \<Rightarrow> string option \<Rightarrow> string option" where
  "py_or a b = (if truthy a then a else b)"

text \<open>\<^verbatim>\<open>int(x or 0)\<close> on an optional integer.\<close>

definition int_or_0 :: "int option \<Rightarrow> int" where
  "int_or_0 x = (case x of None \<Rightarrow> 0 | Some n \<Rightarrow> if n = 0 then 0 else n)"

text \<open>SQL \<^verbatim>\<open>COALESCE(new, old)\<close>: the first argument unless it is NULL.\<close>

definition coalesce :: "'a option \<Rightarrow> 'a option \<Rightarrow> 'a option" where
  "coalesce new old = (case new of None \<Rightarrow> old | Some v \<Rightarrow> Some v)"

text \<open>
  The errors raised: Python's \<^verbatim>\<open>ValueError\<close> and \<^verbatim>\<open>OverflowError\<close> with their messages,
  the error of \<^verbatim>\<open>datetime.utcfromtimestamp\<close> outside the range of dates, and
  \<^verbatim>\<open>sqlite3.OperationalError\<close> with its message.
\<close>

datatype py_error =
    ValueError string
  | OverflowError string
  | TimestampOutOfRange
  | OperationalError string

section \<open>The SQLite store (storage/db.py)\<close>

text \<open>The incoming article dictionary, one optional field per key the store reads.\<close>

record article =
  a_url :: "string option"
  a_arxiv_url :: "string option"
  a_hn_url :: "string option"
  a_title :: "string option"
  a_source :: "string option"
  a_author :: "string option"
  a_created_at :: "string option"
  a_published_date :: "string option"
  a_points :: "int option"
  a_comments_count :: "int option"
  a_description :: "string option"
  a_abstract :: "string option"
  a_category :: "string option"
  a_arxiv_id :: "string option"

text \<open>
  A row of table \<^verbatim>\<open>articles\<close>. Every column but the key is nullable; \<open>r_url\<close> is
  the \<^verbatim>\<open>UNIQUE\<close> column, which the only INSERT fills with a non-empty string.
\<close>

record article_row =
  r_id :: nat
  r_url :: string
  r_title :: "string option"
  r_source :: "string option"
  r_author :: "string option"
  r_created_at :: "string option"
  r_published_date :: "string option"
  r_points :: "int option"
  r_comments_count :: "int option"
  r_description :: "string option"
  r_abstract :: "string option"
  r_category :: "string option"
  r_arxiv_id :: "string option"
  r_hn_url :: "string option"
  r_topic :: "string option"
  r_inserted_at :: "string option"
  r_updated_at :: "string option"

text \<open>A row of table \<^verbatim>\<open>crawled_content\<close>.\<close>

record content_row =
  c_id :: nat
  c_article_id :: nat
  c_url :: "string option"
  c_markdown_content :: "string option"
  c_word_count :: "int option"
  c_crawled_at :: "string option"
  c_updated_at :: "string option"

text \<open>
  The database: both tables in rowid order, and for each the largest rowid ever
  handed out (\<^verbatim>\<open>AUTOINCREMENT\<close>).
\<close>

record store =
  articles :: "article_row list"
  crawled_content :: "content_row list"
  articles_seq :: nat
  crawled_seq :: nat

definition empty_store :: store where
  "empty_store = \<lparr>articles = [], crawled_content = [], articles_seq = 0, crawled_seq = 0\<rparr>"

text \<open>The next \<^verbatim>\<open>AUTOINCREMENT\<close> key: above every key in the table and every key used before.\<close>

definition next_id :: "nat \<Rightarrow> nat list \<Rightarrow> nat" where
  "next_id seq ids = Suc (fold max ids seq)"

text \<open>Line 71: \<^verbatim>\<open>article.get('url') or article.get('arxiv_url') or article.get('hn_url')\<close>.\<close>

definition canonical_url :: "article \<Rightarrow> string option" where
  "canonical_url article = py_or (py_or (a_url article) (a_arxiv_url article)) (a_hn_url article)"

text \<open>\<^verbatim>\<open>SELECT id FROM articles WHERE url = ?\<close> followed by \<^verbatim>\<open>fetchone()\<close>.\<close>

definition select_article :: "store \<Rightarrow> string \<Rightarrow> article_row option" where
  "select_article st url = find (\<lambda>r. r_url r = url) (articles st)"

text \<open>The \<^verbatim>\<open>UPDATE articles SET ... WHERE id = ?\<close> of the update path, on one row.\<close>

definition update_row :: "timestamp \<Rightarrow> article \<Rightarrow> string option \<Rightarrow> article_row \<Rightarrow> article_row" where
  "update_row now article topic r = r\<lparr>
     r_title := coalesce (a_title article) (r_title r),
     r_source := coalesce (a_source article) (r_source r),
     r_author := coalesce (a_author article) (r_author r),
     r_created_at := coalesce (a_created_at article) (r_created_at r),
     r_published_date := coalesce (a_published_date article) (r_published_date r),
     r_points := coalesce (a_points article) (r_points r),
     r_comments_count := coalesce (a_comments_count article) (r_comments_count r),
     r_description := coalesce (a_description article) (r_description r),
     r_abstract := coalesce (a_abstract article) (r_abstract r),
     r_category := coalesce (a_category article) (r_category r),
     r_arxiv_id := coalesce (a_arxiv_id article) (r_arxiv_id r),
     r_hn_url := coalesce (a_hn_url article) (r_hn_url r),
     r_topic := coalesce topic (r_topic r),
     r_updated_at := Some now\<rparr>"

text \<open>The row of the \<^verbatim>\<open>INSERT INTO articles\<close> of the insert path.\<close>

definition insert_row :: "timestamp \<Rightarrow> string \<Rightarrow> article \<Rightarrow> string option \<Rightarrow> nat \<Rightarrow> article_row" where
  "insert_row now url article topic new_id = \<lparr>
     r_id = new_id,
     r_url = url,
     r_title = a_title article,
     r_source = a_source article,
     r_author = a_author article,
     r_created_at = a_created_at article,
     r_published_date = a_published_date article,
     r_points = Some (int_or_0 (a_points article)),
     r_comments_count = Some (int_or_0 (a_comments_count article)),
     r_description = a_description article,
     r_abstract = a_abstract article,
     r_category = a_category article,
     r_arxiv_id = a_arxiv_id article,
     r_hn_url = a_hn_url article,
     r_topic = topic,
     r_inserted_at = Some now,
     r_updated_at = Some now\<rparr>"

text \<open>
  \<^verbatim>\<open>upsert_article(article, topic)\<close> at clock reading \<open>now\<close>: the error raised, or the
  returned id with the committed store.
\<close>

definition upsert_article ::
  "timestamp \<Rightarrow> article \<Rightarrow> string option \<Rightarrow> store \<Rightarrow> py_error + (nat \<times> store)" where
  "upsert_article now article topic st =
     (case canonical_url article of
        None \<Rightarrow> Inl (ValueError ''Article missing canonical URL'')
      | Some url \<Rightarrow>
          if url = [] then Inl (ValueError ''Article missing canonical URL'')
          else
            (case select_article st url of
               Some row \<Rightarrow>
                 Inr (r_id row,
                      st\<lparr>articles :=
                           map (\<lambda>r. if r_id r = r_id row then update_row now article topic r else r)
                               (articles st)\<rparr>)
             | None \<Rightarrow>
                 (let new_id = next_id (articles_seq st) (map r_id (articles st))
                  in Inr (new_id,
                          st\<lparr>articles := articles st @ [insert_row now url article topic new_id],
                             articles_seq := new_id\<rparr>))))"

text \<open>
  The constraints of the schema: \<^verbatim>\<open>PRIMARY KEY\<close> on \<^verbatim>\<open>articles.id\<close> and
  \<^verbatim>\<open>UNIQUE\<close> on \<^verbatim>\<open>articles.url\<close>.
\<close>

definition articles_ok :: "store \<Rightarrow> bool" where
  "articles_ok st = (distinct (map r_id (articles st)) \<and> distinct (map r_url (articles st)))"


text \<open>
  \<^verbatim>\<open>upsert_crawled_content(article_id, url, markdown, word_count, crawled_at)\<close> at clock
  reading \<open>now\<close>. The UPDATE overwrites \<^verbatim>\<open>url\<close>, \<^verbatim>\<open>markdown_content\<close> and
  \<^verbatim>\<open>word_count\<close>; only \<^verbatim>\<open>crawled_at\<close> goes through \<^verbatim>\<open>COALESCE\<close>.
\<close>

definition upsert_crawled_content ::
  "timestamp \<Rightarrow> nat \<Rightarrow> string option \<Rightarrow> string option \<Rightarrow> int option \<Rightarrow> string option \<Rightarrow> store \<Rightarrow> store" where
  "upsert_crawled_content now article_id url markdown word_count crawled_at st =
     (case find (\<lambda>c. c_article_id c = article_id) (crawled_content st) of
        Some row \<Rightarrow>
          st\<lparr>crawled_content :=
               map (\<lambda>c. if c_article_id c = article_id
                         then c\<lparr>c_url := url,
                                c_markdown_content := markdown,
                                c_word_count := Some (int_or_0 word_count),
                                c_crawled_at := coalesce crawled_at (c_crawled_at c),
                                c_updated_at := Some now\<rparr>
                         else c)
                   (crawled_content st)\<rparr>
      | None \<Rightarrow>
          (let new_id = next_id (crawled_seq st) (map c_id (crawled_content st))
           in st\<lparr>crawled_content := crawled_content st @
                  [\<lparr>c_id = new_id,
                    c_article_id = article_id,
                    c_url = url,
                    c_markdown_content = markdown,
                    c_word_count = Some (int_or_0 word_count),
                    c_crawled_at = (if truthy crawled_at then crawled_at else Some now),
                    c_updated_at = Some now\<rparr>],
                  crawled_seq := new_id\<rparr>))"

text \<open>One call of \<^verbatim>\<open>upsert_crawled_content\<close> with its clock reading, and a sequence of calls.\<close>

record attach_call =
  at_now :: timestamp
  at_article_id :: nat
  at_url :: "string option"
  at_markdown :: "string option"
  at_word_count :: "int option"
  at_crawled_at :: "string option"

definition attach :: "attach_call \<Rightarrow> store \<Rightarrow> store" where
  "attach c st = upsert_crawled_content (at_now c) (at_article_id c) (at_url c) (at_markdown c)
                   (at_word_count c) (at_crawled_at c) st"

fun attach_all :: "attach_call list \<Rightarrow> store \<Rightarrow> store" where
  "attach_all [] st = st"
| "attach_all (c # cs) st = attach_all cs (attach c st)"

text \<open>\<^verbatim>\<open>UNIQUE(article_id)\<close> on \<^verbatim>\<open>crawled_content\<close>.\<close>

definition content_ok :: "store \<Rightarrow> bool" where
  "content_ok st = distinct (map c_article_id (crawled_content st))"

subsection \<open>fetch_articles_for_embedding\<close>

text \<open>
  \<^verbatim>\<open>FROM articles a LEFT JOIN crawled_content cc ON cc.article_id = a.id\<close>: every article
  with each of its content rows, or once with no content row.
\<close>

definition left_join :: "store \<Rightarrow> (article_row \<times> content_row option) list" where
  "left_join st =
     concat (map (\<lambda>a. case filter (\<lambda>c. c_article_id c = r_id a) (crawled_content st) of
                         [] \<Rightarrow> [(a, None)]
                       | cs \<Rightarrow> map (\<lambda>c. (a, Some c)) cs)
                 (articles st))"

text \<open>The selected columns; \<^verbatim>\<open>COALESCE(cc.markdown_content, '')\<close> is never NULL.\<close>

record embed_row =
  e_url :: string
  e_title :: "string option"
  e_source :: "string option"
  e_description :: "string option"
  e_abstract :: "string option"
  e_markdown_content :: string

definition select_columns :: "article_row \<times> content_row option \<Rightarrow> embed_row" where
  "select_columns j =
     (case j of (a, cc) \<Rightarrow>
        \<lparr>e_url = r_url a,
         e_title = r_title a,
         e_source = r_source a,
         e_description = r_description a,
         e_abstract = r_abstract a,
         e_markdown_content =
           (case cc of None \<Rightarrow> []
            | Some c \<Rightarrow> (case c_markdown_content c of None \<Rightarrow> [] | Some m \<Rightarrow> m))\<rparr>)"

text \<open>
  \<^verbatim>\<open>ORDER BY a.published_date DESC\<close> as a relation between the joined rows and the
  rows returned: the same rows, in an order where the sort key never increases.
  The key is a nullable TEXT column: strings compare character by character, NULL
  is below every string. The statement names no second key, so the relation
  leaves the order of rows with equal keys open.
\<close>

definition order_by_published_desc ::
  "(article_row \<times> content_row option) list \<Rightarrow> (article_row \<times> content_row option) list \<Rightarrow> bool" where
  "order_by_published_desc js out =
     (mset out = mset js \<and>
      sorted_wrt (\<lambda>x y. r_published_date (fst y) \<le> r_published_date (fst x)) out)"

text \<open>\<open>fetch_articles_for_embedding st out rows\<close>: the query may return \<open>rows\<close>, read from \<open>out\<close>.\<close>

definition fetch_articles_for_embedding ::
  "store \<Rightarrow> (article_row \<times> content_row option) list \<Rightarrow> embed_row list \<Rightarrow> bool" where
  "fetch_articles_for_embedding st out rows =
     (order_by_published_desc (left_join st) out \<and> rows = map select_columns out)"

subsection \<open>aggregate_signals\<close>





text \<open>
  Python floats are binary64 numbers: a float is the rational it denotes, and every
  float operation is the exact operation followed by rounding to the nearest
  number with a 53 bit significand, ties to even. \<open>pow2 k\<close> is \<open>2\<close> to the power
  \<open>k\<close>, \<open>binary_exponent x\<close> the \<open>e\<close> with \<open>pow2 e \<le> \<bar>x\<bar> < pow2 (e + 1)\<close>. (No
  value here comes near the subnormal range.)
\<close>

definition pow2 :: "int \<Rightarrow> rat" where
  "pow2 k = (if 0 \<le> k then 2 ^ nat k else 1 / 2 ^ nat (- k))"

definition binary_exponent :: "rat \<Rightarrow> int" where
  "binary_exponent x =
     (case quotient_of \<bar>x\<bar> of (a, b) \<Rightarrow>
        (let k = bitlen a - bitlen b in if pow2 k \<le> \<bar>x\<bar> then k else k - 1))"

definition round_half_even :: "rat \<Rightarrow> int" where
  "round_half_even x =
     (let f = \<lfloor>x\<rfloor>; d = x - of_int f
      in if d < 1 / 2 then f else if 1 / 2 < d then f + 1 else if even f then f else f + 1)"

definition to_double :: "rat \<Rightarrow> rat" where
  "to_double x =
     (if x = 0 then 0
      else (let q = pow2 (binary_exponent x - 52) in of_int (round_half_even (x / q)) * q))"


text \<open>
  What the call reads from its environment at line 201: the fields of
  \<^verbatim>\<open>datetime.utcnow()\<close>, as seconds since 1970-01-01T00:00:00 and microsecond, and
  the offset from UTC, in seconds east, that the platform's local zone gives to
  that wall-clock time.
\<close>

record clock =
  utc_seconds :: int
  utc_microsecond :: int
  utc_offset :: int

text \<open>
  \<^verbatim>\<open>datetime.utcnow().timestamp()\<close>. The reading has no zone, so \<^verbatim>\<open>timestamp\<close> takes
  it for local time: the whole seconds are those of the reading less the local
  offset, and the microsecond is added as a float.
\<close>

definition timestamp :: "clock \<Rightarrow> rat" where
  "timestamp c =
     to_double (to_double (of_int (utc_seconds c - utc_offset c)) +
                to_double (of_int (utc_microsecond c) / 1000000))"








section \<open>The embedding document (processors/preprocess.py)\<close>

text \<open>\<^verbatim>\<open>str.isspace\<close> on a code point below 256.\<close>

definition is_space :: "char \<Rightarrow> bool" where
  "is_space c =
     (let n = (of_char c :: nat)
      in (9 \<le> n \<and> n \<le> 13) \<or> (28 \<le> n \<and> n \<le> 32) \<or> n = 133 \<or> n = 160)"

text \<open>\<^verbatim>\<open>str.lower\<close> on a code point below 256.\<close>

definition lower_char :: "char \<Rightarrow> char" where
  "lower_char c =
     (let n = (of_char c :: nat)
      in if (65 \<le> n \<and> n \<le> 90) \<or> (192 \<le> n \<and> n \<le> 214) \<or> (216 \<le> n \<and> n \<le> 222)
         then char_of (n + 32) else c)"

definition py_lower :: "string \<Rightarrow> string" where
  "py_lower s = map lower_char s"

text \<open>\<^verbatim>\<open>str.strip()\<close>: leading and trailing whitespace removed.\<close>

definition py_strip :: "string \<Rightarrow> string" where
  "py_strip s = rev (dropWhile is_space (rev (dropWhile is_space s)))"

text \<open>\<^verbatim>\<open>sep.join(parts)\<close>.\<close>

fun py_join :: "string \<Rightarrow> string list \<Rightarrow> string" where
  "py_join sep [] = []"
| "py_join sep [p] = p"
| "py_join sep (p # q # ps) = p @ sep @ py_join sep (q # ps)"

text \<open>\<^verbatim>\<open>x or ''\<close> on an optional string.\<close>

definition or_empty :: "string option \<Rightarrow> string" where
  "or_empty x = (case x of None \<Rightarrow> [] | Some s \<Rightarrow> s)"

definition build_document_for_embedding ::
  "string option \<Rightarrow> string option \<Rightarrow> string option \<Rightarrow> string" where
  "build_document_for_embedding title summary full_content =
     (let parts = [];
          title = py_strip (or_empty title);
          parts = (if title \<noteq> [] then parts @ [''Title: '' @ title] else parts);
          summary = py_strip (or_empty summary);
          parts = (if summary \<noteq> [] \<and> py_lower summary \<noteq> ''unknown''
                   then parts @ [''Summary: '' @ summary] else parts);
          content = py_strip (or_empty full_content);
          parts = (if content \<noteq> [] then parts @ [''Content:'' @ [CHR 0x0A] @ content] else parts)
      in py_join [CHR 0x0A, CHR 0x0A] parts)"

section \<open>Ingestion (cli.py, cmd_ingest)\<close>

subsection \<open>Persisting the scraped records\<close>

text \<open>
  Lines 50 to 59. Each loop body is
  \<^verbatim>\<open>article_id_map[article['url']] = db.upsert_article(article, topic=args.topic)\<close>;
  the arXiv loop first sets \<^verbatim>\<open>article['url']\<close> to
  \<^verbatim>\<open>article.get('arxiv_url') or article.get('url')\<close>. Nothing catches the error of
  \<^verbatim>\<open>upsert_article\<close>: the result is then the error together with the store as
  committed so far. The state is the number of clock readings taken, the id map
  and the store; \<open>clock n\<close> is the \<open>n\<close>-th reading. Every scraped record carries
  the key \<^verbatim>\<open>url\<close>.
\<close>

type_synonym ingest_state = "nat \<times> (string option \<rightharpoonup> nat) \<times> store"

definition use_arxiv_url :: "article \<Rightarrow> article" where
  "use_arxiv_url article = article\<lparr>a_url := py_or (a_arxiv_url article) (a_url article)\<rparr>"

fun upsert_each ::
  "(nat \<Rightarrow> timestamp) \<Rightarrow> string \<Rightarrow> (article \<Rightarrow> article) \<Rightarrow> article list \<Rightarrow> ingest_state
     \<Rightarrow> (py_error \<times> store) + ingest_state" where
  "upsert_each clock topic prepare [] s = Inr s"
| "upsert_each clock topic prepare (raw # rest) (n, id_map, st) =
     (let article = prepare raw
      in case upsert_article (clock n) article (Some topic) st of
           Inl e \<Rightarrow> Inl (e, st)
         | Inr (article_id, st') \<Rightarrow>
             upsert_each clock topic prepare rest
               (Suc n, id_map(a_url article \<mapsto> article_id), st'))"

definition persist_metadata ::
  "(nat \<Rightarrow> timestamp) \<Rightarrow> string \<Rightarrow> article list \<Rightarrow> article list \<Rightarrow> article list \<Rightarrow> store
     \<Rightarrow> (py_error \<times> store) + ingest_state" where
  "persist_metadata clock topic hackernews arxiv rss st =
     (case upsert_each clock topic (\<lambda>a. a) hackernews (0, Map.empty, st) of
        Inl e \<Rightarrow> Inl e
      | Inr s1 \<Rightarrow>
          (case upsert_each clock topic use_arxiv_url arxiv s1 of
             Inl e \<Rightarrow> Inl e
           | Inr s2 \<Rightarrow> upsert_each clock topic (\<lambda>a. a) rss s2))"

subsection \<open>Choosing the documents to index\<close>

text \<open>Lines 78 to 93: the document of a fetched row and the metadata stored with it.\<close>

record meta =
  m_url :: string
  m_title :: string
  m_source :: string

definition doc_text :: "embed_row \<Rightarrow> string" where
  "doc_text row =
     build_document_for_embedding
       (Some (or_empty (e_title row)))
       (Some (or_empty (py_or (e_description row) (e_abstract row))))
       (Some (e_markdown_content row))"

definition row_meta :: "embed_row \<Rightarrow> meta" where
  "row_meta row = \<lparr>m_url = e_url row, m_title = or_empty (e_title row), m_source = or_empty (e_source row)\<rparr>"

text \<open>The loop over the fetched rows, with its three lists: ids, documents, metadata.\<close>

fun collect_documents ::
  "embed_row list \<Rightarrow> string list \<times> string list \<times> meta list \<Rightarrow> string list \<times> string list \<times> meta list" where
  "collect_documents [] acc = acc"
| "collect_documents (row # rows) (ids_to_index, docs_to_index, metas_to_index) =
     (if py_strip (doc_text row) = []
      then collect_documents rows (ids_to_index, docs_to_index, metas_to_index)
      else collect_documents rows
             (ids_to_index @ [e_url row], docs_to_index @ [doc_text row], metas_to_index @ [row_meta row]))"

section \<open>Stated properties and example data\<close>

subsection \<open>Article upsert\<close>

text \<open>
  The coalesce-merge of one field: a non-null incoming value is the result, a null
  incoming value leaves the stored value.
\<close>

definition coalesce_merged :: "'a option \<Rightarrow> 'a option \<Rightarrow> 'a option \<Rightarrow> bool" where
  "coalesce_merged incoming stored result =
     (case incoming of None \<Rightarrow> result = stored | Some v \<Rightarrow> result = Some v)"

text \<open>
  A stored row holds the fields of a record and its topic, the two numeric fields
  being 0 where the record has none.
\<close>

definition row_holds :: "article \<Rightarrow> string option \<Rightarrow> article_row \<Rightarrow> bool" where
  "row_holds a topic r =
     (r_title r = a_title a \<and> r_source r = a_source a \<and> r_author r = a_author a \<and>
      r_created_at r = a_created_at a \<and> r_published_date r = a_published_date a \<and>
      r_points r = Some (case a_points a of None \<Rightarrow> 0 | Some n \<Rightarrow> n) \<and>
      r_comments_count r = Some (case a_comments_count a of None \<Rightarrow> 0 | Some n \<Rightarrow> n) \<and>
      r_description r = a_description a \<and> r_abstract r = a_abstract a \<and>
      r_category r = a_category a \<and> r_arxiv_id r = a_arxiv_id a \<and>
      r_hn_url r = a_hn_url a \<and> r_topic r = topic)"

text \<open>A stored row has every field that a record and its topic give as non-null.\<close>

definition supplied :: "'a option \<Rightarrow> 'a option \<Rightarrow> bool" where
  "supplied incoming stored = (case incoming of None \<Rightarrow> True | Some v \<Rightarrow> stored = Some v)"

definition row_supplied :: "article \<Rightarrow> string option \<Rightarrow> article_row \<Rightarrow> bool" where
  "row_supplied a topic r =
     (supplied (a_title a) (r_title r) \<and> supplied (a_source a) (r_source r) \<and>
      supplied (a_author a) (r_author r) \<and> supplied (a_created_at a) (r_created_at r) \<and>
      supplied (a_published_date a) (r_published_date r) \<and>
      supplied (a_points a) (r_points r) \<and>
      supplied (a_comments_count a) (r_comments_count r) \<and>
      supplied (a_description a) (r_description r) \<and> supplied (a_abstract a) (r_abstract r) \<and>
      supplied (a_category a) (r_category r) \<and> supplied (a_arxiv_id a) (r_arxiv_id r) \<and>
      supplied (a_hn_url a) (r_hn_url r) \<and> supplied topic (r_topic r))"

text \<open>The row found under a URL after an upsert, from the store before it.\<close>

definition row_after :: "timestamp \<Rightarrow> article \<Rightarrow> string option \<Rightarrow> string \<Rightarrow> nat \<Rightarrow> store \<Rightarrow> article_row" where
  "row_after now a t u i st =
     (case select_article st u of None \<Rightarrow> insert_row now u a t i | Some r0 \<Rightarrow> update_row now a t r0)"

text \<open>
  A discussion-site story and a feed item with the same URL, and the stores their
  two upserts leave.
\<close>

definition hn_story :: article where
  "hn_story = \<lparr>a_url = Some ''u1'', a_arxiv_url = None, a_hn_url = None, a_title = None,
     a_source = None, a_author = None, a_created_at = None, a_published_date = None,
     a_points = Some 10, a_comments_count = Some 3, a_description = None, a_abstract = None,
     a_category = None, a_arxiv_id = None\<rparr>"

definition feed_item :: article where
  "feed_item = \<lparr>a_url = Some ''u1'', a_arxiv_url = None, a_hn_url = None, a_title = None,
     a_source = None, a_author = None, a_created_at = None, a_published_date = None,
     a_points = None, a_comments_count = None, a_description = Some ''hello'', a_abstract = None,
     a_category = None, a_arxiv_id = None\<rparr>"

definition store_after_story :: store where
  "store_after_story = \<lparr>articles = [insert_row ''t1'' ''u1'' hn_story (Some ''ai'') 1],
     crawled_content = [], articles_seq = 1, crawled_seq = 0\<rparr>"

definition store_after_feed :: store where
  "store_after_feed =
     \<lparr>articles = [update_row ''t2'' feed_item (Some ''ai'') (insert_row ''t1'' ''u1'' hn_story (Some ''ai'') 1)],
      crawled_content = [], articles_seq = 1, crawled_seq = 0\<rparr>"

subsection \<open>Identity of a record\<close>

text \<open>The three identifying URLs in their order of priority, and the first non-empty of a list.\<close>

definition identity_urls :: "article \<Rightarrow> string option list" where
  "identity_urls a = [a_url a, a_arxiv_url a, a_hn_url a]"

definition first_nonempty :: "string option list \<Rightarrow> string option" where
  "first_nonempty xs = (case find truthy xs of None \<Rightarrow> None | Some x \<Rightarrow> x)"

text \<open>A record with no identifying URL: the only one it carries is empty.\<close>

definition no_url_item :: article where
  "no_url_item = \<lparr>a_url = None, a_arxiv_url = Some '''', a_hn_url = None, a_title = Some ''lost'',
     a_source = None, a_author = None, a_created_at = None, a_published_date = None,
     a_points = None, a_comments_count = None, a_description = None, a_abstract = None,
     a_category = None, a_arxiv_id = None\<rparr>"

subsection \<open>Aggregation\<close>


text \<open>A nullable number read as 0 when NULL.\<close>

definition or_zero :: "int option \<Rightarrow> int" where
  "or_zero x = (case x of None \<Rightarrow> 0 | Some v \<Rightarrow> v)"

text \<open>The store after the story, with a content row attached to it.\<close>

definition store_with_content :: store where
  "store_with_content = store_after_story\<lparr>crawled_content :=
     [\<lparr>c_id = 1, c_article_id = 1, c_url = Some ''u1'', c_markdown_content = Some ''body'',
       c_word_count = Some 1, c_crawled_at = Some ''t3'', c_updated_at = Some ''t3''\<rparr>],
     crawled_seq := 1\<rparr>"



subsection \<open>Content attachment\<close>

text \<open>
  What a re-attachment does to one stored content row: a row of another article is
  unchanged; the row of the article takes the incoming URL and text as they are,
  the incoming word count or 0, the coalesce-merge of the crawl time, and the new
  \<open>updated_at\<close>.
\<close>

definition reattached ::
  "timestamp \<Rightarrow> nat \<Rightarrow> string option \<Rightarrow> string option \<Rightarrow> int option \<Rightarrow> string option
     \<Rightarrow> content_row \<Rightarrow> content_row \<Rightarrow> bool" where
  "reattached now article_id url markdown word_count crawled_at c c' =
     (c_id c' = c_id c \<and> c_article_id c' = c_article_id c \<and>
      (if c_article_id c = article_id
       then c_url c' = url \<and> c_markdown_content c' = markdown \<and>
            c_word_count c' = Some (or_zero word_count) \<and>
            coalesce_merged crawled_at (c_crawled_at c) (c_crawled_at c') \<and>
            c_updated_at c' = Some now
       else c' = c))"

text \<open>A second attachment for article 1 that gives no text, no word count and no crawl time.\<close>

definition reattach_call :: attach_call where
  "reattach_call = \<lparr>at_now = ''t4'', at_article_id = 1, at_url = Some ''u1'', at_markdown = None,
     at_word_count = None, at_crawled_at = None\<rparr>"


subsection \<open>Rows fetched for embedding\<close>

text \<open>Rows with equal publication time come in insertion order, that is by ascending id.\<close>

definition ties_by_insertion :: "(article_row \<times> content_row option) list \<Rightarrow> bool" where
  "ties_by_insertion out =
     sorted_wrt (\<lambda>x y. r_published_date (fst x) = r_published_date (fst y) \<longrightarrow>
                        r_id (fst x) \<le> r_id (fst y)) out"

text \<open>
  A returned row exposes a joined pair: the pair's article is stored, the row has its
  URL, title, source, description and abstract, and the content text is the empty
  string when the article has no content row, else the text of a content row of
  that article (empty when that text is NULL).
\<close>

definition exposes :: "store \<Rightarrow> article_row \<times> content_row option \<Rightarrow> embed_row \<Rightarrow> bool" where
  "exposes st j row =
     (case j of (a, cc) \<Rightarrow>
        a \<in> set (articles st) \<and>
        e_url row = r_url a \<and> e_title row = r_title a \<and> e_source row = r_source a \<and>
        e_description row = r_description a \<and> e_abstract row = r_abstract a \<and>
        (case cc of
           None \<Rightarrow> r_id a \<notin> c_article_id ` set (crawled_content st) \<and> e_markdown_content row = []
         | Some c \<Rightarrow> c \<in> set (crawled_content st) \<and> c_article_id c = r_id a \<and>
                     e_markdown_content row = or_empty (c_markdown_content c)))"

text \<open>Two stories without publication date, the second inserted after the first.\<close>

definition later_story :: article where
  "later_story = hn_story\<lparr>a_url := Some ''u2''\<rparr>"

definition story_row :: article_row where
  "story_row = insert_row ''t1'' ''u1'' hn_story (Some ''ai'') 1"

definition later_row :: article_row where
  "later_row = insert_row ''t2'' ''u2'' later_story (Some ''ai'') 2"

definition two_story_store :: store where
  "two_story_store = \<lparr>articles = [story_row, later_row],
     crawled_content = [], articles_seq = 2, crawled_seq = 0\<rparr>"


subsection \<open>The embedding document\<close>

text \<open>
  The trimmed value of a section, the condition on the trimmed summary, and the
  blank line between two sections.
\<close>

definition trimmed :: "string option \<Rightarrow> string" where
  "trimmed x = py_strip (or_empty x)"

definition summary_qualifies :: "string \<Rightarrow> bool" where
  "summary_qualifies s = (s \<noteq> [] \<and> py_lower s \<noteq> ''unknown'')"

definition blank_line :: string where
  "blank_line = [CHR 0x0A, CHR 0x0A]"

section \<open>Article upsert: merge and frame\<close>

lemma coalesce_simps [simp]: "coalesce None old = old" "coalesce (Some v) old = Some v"
  by (simp_all add: coalesce_def)

lemma coalesce_merged_coalesce [simp]: "coalesce_merged new old (coalesce new old)"
  by (cases new) (simp_all add: coalesce_merged_def)

lemma supplied_simps [simp]:
  "supplied new (coalesce new old)" "supplied x x" "supplied n (Some (int_or_0 n))"
  by (cases new; cases x; cases n; simp add: supplied_def int_or_0_def)+

lemma update_row_frame [simp]:
  "r_id (update_row now a t r) = r_id r"
  "r_url (update_row now a t r) = r_url r"
  "r_inserted_at (update_row now a t r) = r_inserted_at r"
  by (simp_all add: update_row_def)

lemma select_article_Some:
  "select_article st u = Some row \<Longrightarrow> row \<in> set (articles st) \<and> r_url row = u"
  unfolding select_article_def by (auto simp: find_Some_iff)

lemma select_article_None:
  "select_article st u = None \<longleftrightarrow> u \<notin> r_url ` set (articles st)"
  unfolding select_article_def by (auto simp: find_None_iff)

lemma upsert_article_update:
  assumes "canonical_url a = Some u" "select_article st u = Some row"
  shows "upsert_article now a t st =
     (if u = [] then Inl (ValueError ''Article missing canonical URL'')
      else Inr (r_id row,
                st\<lparr>articles := map (\<lambda>r. if r_id r = r_id row then update_row now a t r else r)
                                  (articles st)\<rparr>))"
  using assms by (simp add: upsert_article_def)

lemma upsert_article_insert:
  assumes "canonical_url a = Some u" "select_article st u = None"
  shows "upsert_article now a t st =
     (if u = [] then Inl (ValueError ''Article missing canonical URL'')
      else Inr (next_id (articles_seq st) (map r_id (articles st)),
                st\<lparr>articles := articles st @
                     [insert_row now u a t (next_id (articles_seq st) (map r_id (articles st)))],
                   articles_seq := next_id (articles_seq st) (map r_id (articles st))\<rparr>))"
  using assms by (simp add: upsert_article_def Let_def)

lemma upsert_article_Inr_url:
  assumes "upsert_article now a t st = Inr res"
  obtains u where "canonical_url a = Some u" "u \<noteq> []"
  using assms by (auto simp: upsert_article_def split: option.splits if_splits)

lemma fold_max_ge: "fold max ids (s::nat) \<ge> s \<and> (\<forall>i \<in> set ids. i \<le> fold max ids s)"
proof (induction ids arbitrary: s)
  case Nil
  then show ?case by simp
next
  case (Cons i ids)
  from Cons.IH[of "max i s"] show ?case by auto
qed

lemma next_id_fresh: "next_id s ids \<notin> set ids"
  using fold_max_ge[of s ids] by (auto simp: next_id_def)

lemma find_map_same:
  assumes "\<And>x. P (f x) = P x"
  shows "find P (map f xs) = map_option f (find P xs)"
  by (induction xs) (simp_all add: assms)

lemma find_app:
  "find P (xs @ ys) = (case find P xs of None \<Rightarrow> find P ys | Some x \<Rightarrow> Some x)"
  by (induction xs) simp_all

lemma filter_distinct_key:
  assumes "distinct (map k xs)" "x \<in> set xs"
  shows "filter (\<lambda>y. k y = k x) xs = [x]"
  using assms
proof (induction xs)
  case Nil
  then show ?case by simp
next
  case (Cons y ys)
  show ?case
  proof (cases "y = x")
    case True
    with Cons.prems have "\<forall>z \<in> set ys. k z \<noteq> k x" by (auto simp: image_iff)
    then have "filter (\<lambda>y. k y = k x) ys = []" by (simp add: filter_empty_conv)
    with True show ?thesis by simp
  next
    case False
    with Cons.prems have "x \<in> set ys" "k y \<noteq> k x" by (auto simp: image_iff)
    with Cons show ?thesis by simp
  qed
qed

lemma update_path_columns:
  assumes "canonical_url a = Some u" "select_article st u = Some row"
      "upsert_article now a t st = Inr (i, st')"
  shows "map r_url (articles st') = map r_url (articles st) \<and>
         map r_inserted_at (articles st') = map r_inserted_at (articles st) \<and>
         map r_id (articles st') = map r_id (articles st) \<and>
         crawled_content st' = crawled_content st"
proof -
  from assms have st': "st' = st\<lparr>articles :=
      map (\<lambda>r. if r_id r = r_id row then update_row now a t r else r) (articles st)\<rparr>"
    by (auto simp add: upsert_article_update split: if_splits)
  show ?thesis unfolding st' by (simp add: comp_def if_distrib cong: if_cong)
qed

lemma upsert_article_ok:
  assumes ok: "articles_ok st" and up: "upsert_article now a t st = Inr (i, st')"
  shows "articles_ok st'"
proof -
  from up obtain u where u: "canonical_url a = Some u" "u \<noteq> []"
    by (rule upsert_article_Inr_url)
  show ?thesis
  proof (cases "select_article st u")
    case None
    with u up have st': "st' = st\<lparr>articles := articles st @
          [insert_row now u a t (next_id (articles_seq st) (map r_id (articles st)))],
        articles_seq := next_id (articles_seq st) (map r_id (articles st))\<rparr>"
      by (auto simp: upsert_article_insert)
    from None have "u \<notin> r_url ` set (articles st)" by (simp add: select_article_None)
    with ok next_id_fresh[of "articles_seq st" "map r_id (articles st)"]
    show ?thesis unfolding st' articles_ok_def by (simp add: insert_row_def)
  next
    case (Some row)
    from update_path_columns[OF u(1) Some up] ok show ?thesis
      by (simp add: articles_ok_def)
  qed
qed

lemma upsert_article_selects:
  assumes up: "upsert_article now a t st = Inr (i, st')" and u: "canonical_url a = Some u"
  shows "select_article st' u = Some (row_after now a t u i st) \<and> r_id (row_after now a t u i st) = i"
proof (cases "select_article st u")
  case None
  with u up have st': "st' = st\<lparr>articles := articles st @ [insert_row now u a t i], articles_seq := i\<rparr>"
    by (auto simp: upsert_article_insert split: if_splits)
  from None have "find (\<lambda>r. r_url r = u) (articles st) = None" by (simp add: select_article_def)
  then have "select_article st' u = Some (insert_row now u a t i)"
    unfolding st' select_article_def by (simp add: find_app insert_row_def)
  with None show ?thesis by (simp add: insert_row_def row_after_def)
next
  case (Some row)
  with u up have st': "st' = st\<lparr>articles :=
      map (\<lambda>r. if r_id r = r_id row then update_row now a t r else r) (articles st)\<rparr>"
    and i: "i = r_id row"
    by (auto simp add: upsert_article_update split: if_splits)
  have "find (\<lambda>r. r_url r = u)
          (map (\<lambda>r. if r_id r = r_id row then update_row now a t r else r) (articles st))
        = map_option (\<lambda>r. if r_id r = r_id row then update_row now a t r else r)
            (find (\<lambda>r. r_url r = u) (articles st))"
    by (rule find_map_same) simp
  with Some have "select_article st' u = Some (update_row now a t row)"
    unfolding st' select_article_def by simp
  with Some i show ?thesis by (simp add: row_after_def)
qed

lemma story_url: "canonical_url hn_story = Some ''u1''"
  by (simp add: canonical_url_def py_or_def truthy_def hn_story_def)

lemma feed_url: "canonical_url feed_item = Some ''u1''"
  by (simp add: canonical_url_def py_or_def truthy_def feed_item_def)

lemma story_upsert:
  "upsert_article ''t1'' hn_story (Some ''ai'') empty_store = Inr (1, store_after_story)"
  by (simp add: upsert_article_def story_url select_article_def empty_store_def next_id_def
        store_after_story_def)

lemma feed_select:
  "select_article store_after_story ''u1'' = Some (insert_row ''t1'' ''u1'' hn_story (Some ''ai'') 1)"
  by (simp add: select_article_def store_after_story_def insert_row_def)

lemma feed_upsert:
  "upsert_article ''t2'' feed_item (Some ''ai'') store_after_story = Inr (1, store_after_feed)"
  by (simp add: upsert_article_def feed_url feed_select)
     (simp add: store_after_story_def store_after_feed_def insert_row_def)

text \<open>
  C1. Let the store satisfy its key constraints, and let two records resolve to the
  same canonical URL. After \<open>upsert_article\<close> of the first and then of the second,
  the store holds exactly one row with that URL, the second call returns the id
  of the first and adds no row; in that row every field the second record gives
  as non-null has the second record's value, every field it gives as null keeps
  the value stored after the first call, and \<open>updated_at\<close> is the clock reading of the
  second call. The value stored after the first call is the first record's own
  value for every field that record gives; when the first call inserted the row it
  is the first record's field throughout (0 for a numeric field it does not give).
  So a second record with a null field leaves the first record's value.
\<close>

theorem upsert_article_twice:
  assumes ok: "articles_ok st"
    and A: "upsert_article t1 A topicA st = Inr (i1, st1)"
    and B: "upsert_article t2 B topicB st1 = Inr (i2, st2)"
    and same: "canonical_url B = canonical_url A"
  shows "\<exists>u r1 r2.
           canonical_url A = Some u \<and>
           select_article st1 u = Some r1 \<and>
           filter (\<lambda>r. r_url r = u) (articles st2) = [r2] \<and>
           length (articles st2) = length (articles st1) \<and>
           i2 = i1 \<and> r_id r2 = i1 \<and>
           coalesce_merged (a_title B) (r_title r1) (r_title r2) \<and>
           coalesce_merged (a_source B) (r_source r1) (r_source r2) \<and>
           coalesce_merged (a_author B) (r_author r1) (r_author r2) \<and>
           coalesce_merged (a_created_at B) (r_created_at r1) (r_created_at r2) \<and>
           coalesce_merged (a_published_date B) (r_published_date r1) (r_published_date r2) \<and>
           coalesce_merged (a_points B) (r_points r1) (r_points r2) \<and>
           coalesce_merged (a_comments_count B) (r_comments_count r1) (r_comments_count r2) \<and>
           coalesce_merged (a_description B) (r_description r1) (r_description r2) \<and>
           coalesce_merged (a_abstract B) (r_abstract r1) (r_abstract r2) \<and>
           coalesce_merged (a_category B) (r_category r1) (r_category r2) \<and>
           coalesce_merged (a_arxiv_id B) (r_arxiv_id r1) (r_arxiv_id r2) \<and>
           coalesce_merged (a_hn_url B) (r_hn_url r1) (r_hn_url r2) \<and>
           coalesce_merged topicB (r_topic r1) (r_topic r2) \<and>
           r_updated_at r2 = Some t2 \<and>
           row_supplied A topicA r1 \<and>
           (select_article st u = None \<longrightarrow> row_holds A topicA r1)"
proof -
  from A obtain u where u: "canonical_url A = Some u" "u \<noteq> []"
    by (rule upsert_article_Inr_url)
  define r1 where "r1 = row_after t1 A topicA u i1 st"
  from upsert_article_selects[OF A u(1)] have
    r1: "select_article st1 u = Some r1" "r_id r1 = i1"
    by (simp_all add: r1_def)
  have r1_fresh: "select_article st u = None \<longrightarrow> r1 = insert_row t1 u A topicA i1"
    by (simp add: r1_def row_after_def)
  from same u have uB: "canonical_url B = Some u" by simp
  define r2 where "r2 = update_row t2 B topicB r1"
  from upsert_article_selects[OF B uB] r1(1) have
    r2: "select_article st2 u = Some r2" "r_id r2 = i2"
    by (simp_all add: r2_def row_after_def)
  from update_path_columns[OF uB r1(1) B] have
    fr: "map r_url (articles st2) = map r_url (articles st1)" by simp
  then have len: "length (articles st2) = length (articles st1)"
    by (rule map_eq_imp_length_eq)
  have "articles_ok st2"
    using upsert_article_ok[OF upsert_article_ok[OF ok A] B] .
  then have "distinct (map r_url (articles st2))" by (simp add: articles_ok_def)
  moreover from r2(1) have "r2 \<in> set (articles st2)" "r_url r2 = u"
    by (simp_all add: select_article_Some)
  ultimately have one: "filter (\<lambda>r. r_url r = u) (articles st2) = [r2]"
    using filter_distinct_key[of r_url "articles st2" r2] by simp
  have ids: "i2 = i1" "r_id r2 = i1" using r1(2) r2(2) by (simp_all add: r2_def)
  have "row_holds A topicA (insert_row t1 u A topicA i1)"
    by (simp add: row_holds_def insert_row_def int_or_0_def split: option.splits)
  with r1_fresh have fresh: "select_article st u = None \<longrightarrow> row_holds A topicA r1"
    by simp
  have upd: "r_updated_at r2 = Some t2" by (simp add: r2_def update_row_def)
  have sup: "row_supplied A topicA r1"
  proof (cases "select_article st u")
    case None
    then show ?thesis
      by (simp add: r1_def row_after_def row_supplied_def insert_row_def)
  next
    case (Some r0)
    then show ?thesis
      by (simp add: r1_def row_after_def row_supplied_def update_row_def)
  qed
  have m: "coalesce_merged (a_title B) (r_title r1) (r_title r2)"
    "coalesce_merged (a_source B) (r_source r1) (r_source r2)"
    "coalesce_merged (a_author B) (r_author r1) (r_author r2)"
    "coalesce_merged (a_created_at B) (r_created_at r1) (r_created_at r2)"
    "coalesce_merged (a_published_date B) (r_published_date r1) (r_published_date r2)"
    "coalesce_merged (a_points B) (r_points r1) (r_points r2)"
    "coalesce_merged (a_comments_count B) (r_comments_count r1) (r_comments_count r2)"
    "coalesce_merged (a_description B) (r_description r1) (r_description r2)"
    "coalesce_merged (a_abstract B) (r_abstract r1) (r_abstract r2)"
    "coalesce_merged (a_category B) (r_category r1) (r_category r2)"
    "coalesce_merged (a_arxiv_id B) (r_arxiv_id r1) (r_arxiv_id r2)"
    "coalesce_merged (a_hn_url B) (r_hn_url r1) (r_hn_url r2)"
    "coalesce_merged topicB (r_topic r1) (r_topic r2)"
    by (simp_all add: r2_def update_row_def)
  show ?thesis
    apply (rule exI[of _ u], rule exI[of _ r1], rule exI[of _ r2])
    apply (intro conjI)
    apply (fact u(1) r1(1) one len ids m upd sup fresh)+
    done
qed

text \<open>
  The scenario of the story with 10 points and 3 comments followed by the feed item
  with the description \<open>hello\<close>, both under URL \<open>u1\<close>, through the theorem.
\<close>

theorem upsert_article_twice_witness:
  "\<exists>r2. filter (\<lambda>r. r_url r = ''u1'') (articles store_after_feed) = [r2] \<and>
        r_points r2 = Some 10 \<and> r_comments_count r2 = Some 3 \<and>
        r_description r2 = Some ''hello'' \<and> r_updated_at r2 = Some ''t2''"
proof -
  have ok: "articles_ok empty_store" by (simp add: articles_ok_def empty_store_def)
  have same: "canonical_url feed_item = canonical_url hn_story" by (simp add: story_url feed_url)
  have fresh: "select_article empty_store ''u1'' = None"
    by (simp add: select_article_def empty_store_def)
  from upsert_article_twice[OF ok story_upsert feed_upsert same]
  obtain u r1 r2 where
    u: "canonical_url hn_story = Some u" and
    r2: "filter (\<lambda>r. r_url r = u) (articles store_after_feed) = [r2]" and
    m: "coalesce_merged (a_points feed_item) (r_points r1) (r_points r2)"
       "coalesce_merged (a_comments_count feed_item) (r_comments_count r1) (r_comments_count r2)"
       "coalesce_merged (a_description feed_item) (r_description r1) (r_description r2)" and
    t: "r_updated_at r2 = Some ''t2''" and
    h: "select_article empty_store u = None \<longrightarrow> row_holds hn_story (Some ''ai'') r1"
    by (elim exE conjE) (rule that, assumption+)
  from u have [simp]: "u = ''u1''" by (simp add: story_url)
  from h fresh have "row_holds hn_story (Some ''ai'') r1" by simp
  then have "r_points r1 = Some 10" "r_comments_count r1 = Some 3"
    by (simp_all add: row_holds_def hn_story_def)
  with m have "r_points r2 = Some 10" "r_comments_count r2 = Some 3"
      "r_description r2 = Some ''hello''"
    by (simp_all add: coalesce_merged_def feed_item_def)
  with r2 t show ?thesis by simp
qed

text \<open>
  C10. On the update path of \<open>upsert_article\<close>, where a row with the record's
  canonical URL is already stored, the call changes no row's \<open>url\<close>, \<open>inserted_at\<close>
  or \<open>id\<close>, whatever the record holds, and leaves the content table as it is.
\<close>

theorem upsert_update_frame:
  assumes "canonical_url a = Some u" "select_article st u = Some row"
      "upsert_article now a t st = Inr (i, st')"
  shows "map r_url (articles st') = map r_url (articles st) \<and>
         map r_inserted_at (articles st') = map r_inserted_at (articles st) \<and>
         map r_id (articles st') = map r_id (articles st) \<and>
         crawled_content st' = crawled_content st"
  using assms by (rule update_path_columns)

theorem upsert_update_frame_witness:
  "map r_url (articles store_after_feed) = [''u1''] \<and>
   map r_inserted_at (articles store_after_feed) = [Some ''t1''] \<and>
   map r_id (articles store_after_feed) = [1]"
  using upsert_update_frame[OF feed_url feed_select feed_upsert]
  by (simp add: store_after_story_def insert_row_def)

section \<open>Identity resolution and the ingestion loop\<close>

lemma first_nonempty_None:
  "first_nonempty (identity_urls a) = None \<longleftrightarrow> \<not> truthy (canonical_url a)"
  by (auto simp: first_nonempty_def identity_urls_def canonical_url_def py_or_def truthy_def
      split: option.splits)

lemma first_nonempty_Some:
  "first_nonempty (identity_urls a) = Some u \<Longrightarrow> canonical_url a = Some u \<and> u \<noteq> []"
  by (auto simp: first_nonempty_def identity_urls_def canonical_url_def py_or_def truthy_def
      split: option.splits if_splits)

lemma upsert_article_missing:
  "\<not> truthy (canonical_url a) \<Longrightarrow>
   upsert_article now a t st = Inl (ValueError ''Article missing canonical URL'')"
  by (auto simp: upsert_article_def truthy_def split: option.splits)

lemma upsert_article_total:
  assumes "canonical_url a = Some u" "u \<noteq> []"
  shows "\<exists>i st'. upsert_article now a t st = Inr (i, st')"
  using assms by (cases "select_article st u") (simp_all add: upsert_article_def Let_def)

lemma upsert_each_append:
  "upsert_each clock topic prep (xs @ ys) s =
     (case upsert_each clock topic prep xs s of
        Inl e \<Rightarrow> Inl e
      | Inr s' \<Rightarrow> upsert_each clock topic prep ys s')"
proof (induction xs arbitrary: s)
  case Nil
  then show ?case by simp
next
  case (Cons x xs)
  obtain n m st where s: "s = (n, m, st)" by (cases s)
  show ?case unfolding s by (simp add: Let_def Cons.IH split: sum.splits prod.splits)
qed

lemma upsert_each_missing:
  assumes "\<not> truthy (canonical_url (prep bad))"
  shows "upsert_each clock topic prep (bad # rest) (n, m, st) =
           Inl (ValueError ''Article missing canonical URL'', st)"
  using upsert_article_missing[OF assms] by (simp add: Let_def)

lemma no_url_item_urls: "first_nonempty (identity_urls no_url_item) = None"
  by (simp add: first_nonempty_def identity_urls_def no_url_item_def truthy_def)

lemma upsert_each_stops:
  assumes "upsert_each clock topic prep before s = Inr (n', m', st')"
    and "first_nonempty (identity_urls (prep bad)) = None"
  shows "upsert_each clock topic prep (before @ bad # rest) s =
           Inl (ValueError ''Article missing canonical URL'', st')"
proof -
  from assms(2) have bad: "\<not> truthy (canonical_url (prep bad))"
    by (simp add: first_nonempty_None)
  from assms(1) upsert_each_missing[where prep = prep and bad = bad, OF bad]
  show ?thesis by (simp add: upsert_each_append)
qed

text \<open>
  C2, as the code has it. \<open>upsert_article\<close> takes as identity the first non-empty of the
  explicit URL, the preprint-abstract URL and the discussion-thread URL: with one
  present the call succeeds and the row it returns is stored under that URL; with
  none present it raises the missing-URL \<open>ValueError\<close>. Ingestion does not catch that
  error, in none of its three loops: when the records before the one without
  identity are stored, each loop ends at that record with the error and the store
  as those records left it; and wherever the record stands, in the discussion-site
  list, in the preprint list after the whole discussion-site list, or in the feed
  list after both, the whole ingestion ends there with that error and that store,
  and no later record of any list is processed.
\<close>

theorem upsert_article_identity:
  "(first_nonempty (identity_urls a) = None \<longrightarrow>
      upsert_article now a t st = Inl (ValueError ''Article missing canonical URL'')) \<and>
   (\<forall>u. first_nonempty (identity_urls a) = Some u \<longrightarrow>
      (\<exists>i st' r. upsert_article now a t st = Inr (i, st') \<and>
                 select_article st' u = Some r \<and> r_id r = i)) \<and>
   (\<forall>n' m' st'.
      upsert_each clock topic prep before s = Inr (n', m', st') \<and>
      first_nonempty (identity_urls (prep bad)) = None \<longrightarrow>
      upsert_each clock topic prep (before @ bad # rest) s =
        Inl (ValueError ''Article missing canonical URL'', st')) \<and>
   (\<forall>done missing later n' m' st'.
      hackernews = done @ missing # later \<and>
      upsert_each clock topic (\<lambda>a. a) done (0, Map.empty, st0) = Inr (n', m', st') \<and>
      first_nonempty (identity_urls missing) = None \<longrightarrow>
      persist_metadata clock topic hackernews arxiv rss st0 =
        Inl (ValueError ''Article missing canonical URL'', st')) \<and>
   (\<forall>s1 done missing later n' m' st'.
      upsert_each clock topic (\<lambda>a. a) hackernews (0, Map.empty, st0) = Inr s1 \<and>
      arxiv = done @ missing # later \<and>
      upsert_each clock topic use_arxiv_url done s1 = Inr (n', m', st') \<and>
      first_nonempty (identity_urls (use_arxiv_url missing)) = None \<longrightarrow>
      persist_metadata clock topic hackernews arxiv rss st0 =
        Inl (ValueError ''Article missing canonical URL'', st')) \<and>
   (\<forall>s1 s2 done missing later n' m' st'.
      upsert_each clock topic (\<lambda>a. a) hackernews (0, Map.empty, st0) = Inr s1 \<and>
      upsert_each clock topic use_arxiv_url arxiv s1 = Inr s2 \<and>
      rss = done @ missing # later \<and>
      upsert_each clock topic (\<lambda>a. a) done s2 = Inr (n', m', st') \<and>
      first_nonempty (identity_urls missing) = None \<longrightarrow>
      persist_metadata clock topic hackernews arxiv rss st0 =
        Inl (ValueError ''Article missing canonical URL'', st'))"
proof (intro conjI allI impI)
  assume "first_nonempty (identity_urls a) = None"
  then show "upsert_article now a t st = Inl (ValueError ''Article missing canonical URL'')"
    by (simp add: first_nonempty_None upsert_article_missing)
next
  fix u
  assume "first_nonempty (identity_urls a) = Some u"
  then have u: "canonical_url a = Some u" "u \<noteq> []"
    by (simp_all add: first_nonempty_Some)
  then obtain i st' where up: "upsert_article now a t st = Inr (i, st')"
    using upsert_article_total by blast
  from upsert_article_selects[OF up u(1)] up
  show "\<exists>i st' r. upsert_article now a t st = Inr (i, st') \<and>
                  select_article st' u = Some r \<and> r_id r = i"
    by blast
next
  fix n' m' st'
  assume "upsert_each clock topic prep before s = Inr (n', m', st') \<and>
          first_nonempty (identity_urls (prep bad)) = None"
  then show "upsert_each clock topic prep (before @ bad # rest) s =
          Inl (ValueError ''Article missing canonical URL'', st')"
    by (simp add: upsert_each_stops)
next
  fix "done" missing later n' m' st'
  assume h: "hackernews = done @ missing # later \<and>
      upsert_each clock topic (\<lambda>a. a) done (0, Map.empty, st0) = Inr (n', m', st') \<and>
      first_nonempty (identity_urls missing) = None"
  then have "upsert_each clock topic (\<lambda>a. a) (done @ missing # later) (0, Map.empty, st0) =
      Inl (ValueError ''Article missing canonical URL'', st')"
    by (intro upsert_each_stops) simp_all
  with h show "persist_metadata clock topic hackernews arxiv rss st0 =
        Inl (ValueError ''Article missing canonical URL'', st')"
    by (simp add: persist_metadata_def)
next
  fix s1 "done" missing later n' m' st'
  assume h: "upsert_each clock topic (\<lambda>a. a) hackernews (0, Map.empty, st0) = Inr s1 \<and>
      arxiv = done @ missing # later \<and>
      upsert_each clock topic use_arxiv_url done s1 = Inr (n', m', st') \<and>
      first_nonempty (identity_urls (use_arxiv_url missing)) = None"
  then have "upsert_each clock topic use_arxiv_url (done @ missing # later) s1 =
      Inl (ValueError ''Article missing canonical URL'', st')"
    by (intro upsert_each_stops) simp_all
  with h show "persist_metadata clock topic hackernews arxiv rss st0 =
        Inl (ValueError ''Article missing canonical URL'', st')"
    by (simp add: persist_metadata_def)
next
  fix s1 s2 "done" missing later n' m' st'
  assume h: "upsert_each clock topic (\<lambda>a. a) hackernews (0, Map.empty, st0) = Inr s1 \<and>
      upsert_each clock topic use_arxiv_url arxiv s1 = Inr s2 \<and>
      rss = done @ missing # later \<and>
      upsert_each clock topic (\<lambda>a. a) done s2 = Inr (n', m', st') \<and>
      first_nonempty (identity_urls missing) = None"
  then have "upsert_each clock topic (\<lambda>a. a) (done @ missing # later) s2 =
      Inl (ValueError ''Article missing canonical URL'', st')"
    by (intro upsert_each_stops) simp_all
  with h show "persist_metadata clock topic hackernews arxiv rss st0 =
        Inl (ValueError ''Article missing canonical URL'', st')"
    by (simp add: persist_metadata_def)
qed

text \<open>
  An ingestion whose discussion-site list holds the story and then the record without
  identity, and whose feed list holds the feed item: it ends with the error, the
  store holds the story alone as first stored, and the feed item is never merged.
\<close>

theorem upsert_article_identity_witness:
  "persist_metadata (\<lambda>n. ''t1'') ''ai'' [hn_story, no_url_item] [] [feed_item] empty_store =
     Inl (ValueError ''Article missing canonical URL'', store_after_story)"
proof -
  have before: "upsert_each (\<lambda>n. ''t1'') ''ai'' (\<lambda>a. a) [hn_story] (0, Map.empty, empty_store) =
      Inr (Suc 0, Map.empty(Some ''u1'' \<mapsto> 1), store_after_story)"
    by (simp add: story_upsert Let_def) (simp add: hn_story_def)
  have prem: "[hn_story, no_url_item] = [hn_story] @ no_url_item # [] \<and>
      upsert_each (\<lambda>n. ''t1'') ''ai'' (\<lambda>a. a) [hn_story] (0, Map.empty, empty_store) =
        Inr (Suc 0, Map.empty(Some ''u1'' \<mapsto> 1), store_after_story) \<and>
      first_nonempty (identity_urls no_url_item) = None"
    using before no_url_item_urls by simp
  show ?thesis
    by (rule upsert_article_identity[where hackernews = "[hn_story, no_url_item]"
         and clock = "\<lambda>n. ''t1''" and topic = "''ai''" and ?st0.0 = empty_store
         and arxiv = "[]" and rss = "[feed_item]",
         THEN conjunct2, THEN conjunct2, THEN conjunct2, THEN conjunct1, rule_format,
         OF prem])
qed

text \<open>
  C2 as stated fails: with the record without identity first in the feed list, the
  whole ingestion ends with the error and the store is still empty, although the
  feed item after it is a record that \<open>upsert_article\<close> accepts.
\<close>

theorem ingest_continues_counterexample:
  "persist_metadata (\<lambda>n. ''t1'') ''ai'' [] [] [no_url_item, feed_item] empty_store =
     Inl (ValueError ''Article missing canonical URL'', empty_store) \<and>
   \<not> isl (upsert_article ''t1'' feed_item (Some ''ai'') empty_store)"
proof -
  have "\<not> truthy (canonical_url no_url_item)"
    using no_url_item_urls by (simp add: first_nonempty_None)
  then have "upsert_article ''t1'' no_url_item (Some ''ai'') empty_store =
      Inl (ValueError ''Article missing canonical URL'')"
    by (rule upsert_article_missing)
  then have "persist_metadata (\<lambda>n. ''t1'') ''ai'' [] [] [no_url_item, feed_item] empty_store =
     Inl (ValueError ''Article missing canonical URL'', empty_store)"
    by (simp add: persist_metadata_def)
  moreover have "\<not> isl (upsert_article ''t1'' feed_item (Some ''ai'') empty_store)"
    by (simp add: upsert_article_def feed_url select_article_def empty_store_def Let_def)
  ultimately show ?thesis by simp
qed

section \<open>Aggregation over the store\<close>


lemma int_or_0_or_zero: "int_or_0 x = or_zero x"
  by (simp add: int_or_0_def or_zero_def split: option.splits)












section \<open>Content attachment\<close>

lemma upsert_crawled_content_update:
  assumes "article_id \<in> c_article_id ` set (crawled_content st)"
  shows "crawled_content (upsert_crawled_content now article_id url markdown word_count crawled_at st) =
     map (\<lambda>c. if c_article_id c = article_id
               then c\<lparr>c_url := url, c_markdown_content := markdown,
                      c_word_count := Some (int_or_0 word_count),
                      c_crawled_at := coalesce crawled_at (c_crawled_at c),
                      c_updated_at := Some now\<rparr>
               else c) (crawled_content st)"
proof -
  from assms have "find (\<lambda>c. c_article_id c = article_id) (crawled_content st) \<noteq> None"
    by (auto simp: find_None_iff)
  then show ?thesis by (auto simp: upsert_crawled_content_def)
qed

lemma upsert_crawled_content_insert:
  assumes "article_id \<notin> c_article_id ` set (crawled_content st)"
  shows "map c_article_id (crawled_content (upsert_crawled_content now article_id url markdown word_count crawled_at st))
     = map c_article_id (crawled_content st) @ [article_id]"
proof -
  from assms have "find (\<lambda>c. c_article_id c = article_id) (crawled_content st) = None"
    by (auto simp: find_None_iff)
  then show ?thesis by (simp add: upsert_crawled_content_def Let_def)
qed

lemma upsert_crawled_content_ok:
  assumes "content_ok st"
  shows "content_ok (upsert_crawled_content now article_id url markdown word_count crawled_at st)"
proof (cases "article_id \<in> c_article_id ` set (crawled_content st)")
  case True
  have "map c_article_id (crawled_content (upsert_crawled_content now article_id url markdown word_count crawled_at st))
      = map c_article_id (crawled_content st)"
    unfolding upsert_crawled_content_update[OF True] by (simp add: comp_def if_distrib cong: if_cong)
  with assms show ?thesis by (simp add: content_ok_def)
next
  case False
  with assms upsert_crawled_content_insert[OF False, of now url markdown word_count crawled_at]
  show ?thesis by (simp add: content_ok_def)
qed

lemma attach_all_ok: "content_ok st \<Longrightarrow> content_ok (attach_all calls st)"
  by (induction calls arbitrary: st) (simp_all add: attach_def upsert_crawled_content_ok)

text \<open>
  C7, as the code has it. When the article already has a content row,
  \<open>upsert_crawled_content\<close> keeps every row's id and owner, leaves the rows of other
  articles unchanged, and in the article's row overwrites the URL and the text with
  the incoming values (null included), sets the word count to the incoming one or
  0, coalesce-merges only the crawl time, and refreshes \<open>updated_at\<close>. Any sequence of
  calls keeps at most one content row per article.
\<close>

theorem upsert_crawled_content_reattach:
  "(article_id \<in> c_article_id ` set (crawled_content st) \<longrightarrow>
      list_all2 (reattached now article_id url markdown word_count crawled_at)
        (crawled_content st)
        (crawled_content (upsert_crawled_content now article_id url markdown word_count crawled_at st))) \<and>
   (content_ok st \<longrightarrow> content_ok (attach_all calls st))"
proof (intro conjI impI)
  assume "article_id \<in> c_article_id ` set (crawled_content st)"
  then show "list_all2 (reattached now article_id url markdown word_count crawled_at)
        (crawled_content st)
        (crawled_content (upsert_crawled_content now article_id url markdown word_count crawled_at st))"
    by (simp add: upsert_crawled_content_update list_all2_map2 list_all2_same reattached_def
          int_or_0_or_zero)
next
  assume "content_ok st"
  then show "content_ok (attach_all calls st)" by (rule attach_all_ok)
qed

text \<open>
  A re-attachment without crawl time on the store with one content row, and two
  attachments in a row on the empty store.
\<close>

theorem upsert_crawled_content_reattach_witness:
  "map (\<lambda>c. (c_article_id c, c_crawled_at c, c_updated_at c))
       (crawled_content (upsert_crawled_content ''t4'' 1 (Some ''u1'') (Some ''new'') (Some 2) None store_with_content))
     = [(1, Some ''t3'', Some ''t4'')] \<and>
   content_ok (attach_all [reattach_call, reattach_call] empty_store)"
proof -
  have 1: "1 \<in> c_article_id ` set (crawled_content store_with_content)"
    by (simp add: store_with_content_def)
  have 2: "content_ok empty_store" by (simp add: content_ok_def empty_store_def)
  from upsert_crawled_content_reattach[where article_id = 1 and st = store_with_content
         and now = "''t4''" and url = "Some ''u1''" and markdown = "Some ''new''"
         and word_count = "Some 2" and crawled_at = None
         and calls = "[reattach_call, reattach_call]"] 1
  have a: "list_all2 (reattached ''t4'' 1 (Some ''u1'') (Some ''new'') (Some 2) None)
        (crawled_content store_with_content)
        (crawled_content (upsert_crawled_content ''t4'' 1 (Some ''u1'') (Some ''new'') (Some 2) None store_with_content))"
    by simp
  from upsert_crawled_content_reattach[where st = empty_store
         and calls = "[reattach_call, reattach_call]"] 2
  have b: "content_ok (attach_all [reattach_call, reattach_call] empty_store)"
    by simp
  from a have "map (\<lambda>c. (c_article_id c, c_crawled_at c, c_updated_at c))
       (crawled_content (upsert_crawled_content ''t4'' 1 (Some ''u1'') (Some ''new'') (Some 2) None store_with_content))
     = [(1, Some ''t3'', Some ''t4'')]"
    by (auto simp: store_with_content_def list_all2_Cons1 reattached_def coalesce_merged_def)
  with b show ?thesis by simp
qed

text \<open>
  C7 as stated fails: a re-attachment with a null text and a null word count replaces
  the stored text by null and the stored word count by 0.
\<close>

theorem reattach_null_counterexample:
  "map (\<lambda>c. (c_markdown_content c, c_word_count c)) (crawled_content store_with_content) =
     [(Some ''body'', Some 1)] \<and>
   map (\<lambda>c. (c_markdown_content c, c_word_count c))
     (crawled_content (upsert_crawled_content ''t4'' 1 (Some ''u1'') None None None store_with_content)) =
     [(None, Some 0)]"
  by (simp add: upsert_crawled_content_def store_with_content_def int_or_0_def)


section \<open>Rows fetched for embedding\<close>

lemma left_join_set:
  "(a, cc) \<in> set (left_join st) \<longleftrightarrow>
     a \<in> set (articles st) \<and>
     (case cc of
        None \<Rightarrow> r_id a \<notin> c_article_id ` set (crawled_content st)
      | Some c \<Rightarrow> c \<in> set (crawled_content st) \<and> c_article_id c = r_id a)"
proof -
  have one: "\<And>a'. (a, cc) \<in> set (case filter (\<lambda>c. c_article_id c = r_id a') (crawled_content st) of
                         [] \<Rightarrow> [(a', None)]
                       | cs \<Rightarrow> map (\<lambda>c. (a', Some c)) cs) \<longleftrightarrow>
        a = a' \<and> (case cc of
        None \<Rightarrow> r_id a \<notin> c_article_id ` set (crawled_content st)
      | Some c \<Rightarrow> c \<in> set (crawled_content st) \<and> c_article_id c = r_id a)"
  proof -
    fix a'
    show "?thesis a'"
    proof (cases "filter (\<lambda>c. c_article_id c = r_id a') (crawled_content st)")
      case Nil
      then have "r_id a' \<notin> c_article_id ` set (crawled_content st)"
        by (auto simp: filter_empty_conv)
      with Nil show ?thesis by (auto simp: image_iff split: option.splits)
    next
      case (Cons c cs)
      have eq: "set (case filter (\<lambda>c. c_article_id c = r_id a') (crawled_content st) of
                         [] \<Rightarrow> [(a', None)]
                       | cs \<Rightarrow> map (\<lambda>c. (a', Some c)) cs) =
          (\<lambda>c. (a', Some c)) ` set (filter (\<lambda>c. c_article_id c = r_id a') (crawled_content st))"
        by (simp add: Cons)
      from Cons have "c \<in> set (filter (\<lambda>c. c_article_id c = r_id a') (crawled_content st))"
        by simp
      then have "c \<in> set (crawled_content st)" "c_article_id c = r_id a'"
        by simp_all
      then have inimg: "r_id a' \<in> c_article_id ` set (crawled_content st)"
        by (metis imageI)
      show ?thesis unfolding eq using inimg by (cases cc) auto
    qed
  qed
  show ?thesis unfolding left_join_def by (auto simp: one)
qed

lemma filter_key_le1:
  assumes "distinct (map k xs)"
  shows "length (filter (\<lambda>c. k c = v) xs) \<le> 1"
  using assms by (induction xs) (auto simp: filter_empty_conv image_iff)

lemma left_join_fst:
  assumes "content_ok st"
  shows "map fst (left_join st) = articles st"
proof -
  define G :: "article_row \<Rightarrow> (article_row \<times> content_row option) list"
    where "G = (\<lambda>a. case filter (\<lambda>c. c_article_id c = r_id a) (crawled_content st) of
                         [] \<Rightarrow> [(a, None)]
                       | cs \<Rightarrow> map (\<lambda>c. (a, Some c)) cs)"
  have step: "map fst (G a) = [a]" for a
  proof -
    from assms have "length (filter (\<lambda>c. c_article_id c = r_id a) (crawled_content st)) \<le> 1"
      unfolding content_ok_def by (rule filter_key_le1)
    then show ?thesis unfolding G_def
      by (cases "filter (\<lambda>c. c_article_id c = r_id a) (crawled_content st)") auto
  qed
  have "map fst (concat (map G xs)) = xs" for xs :: "article_row list"
    by (induction xs) (simp_all add: step)
  from this[of "articles st"] show ?thesis unfolding left_join_def G_def .
qed

lemma order_by_exists:
  "order_by_published_desc js (rev (sort_key (r_published_date \<circ> fst) js))"
proof -
  have "sorted (map (r_published_date \<circ> fst) (sort_key (r_published_date \<circ> fst) js))"
    by (rule sorted_sort_key)
  then have "sorted_wrt (\<lambda>x y. r_published_date (fst x) \<le> r_published_date (fst y))
               (sort_key (r_published_date \<circ> fst) js)"
    by (simp add: sorted_map comp_def)
  then show ?thesis
    by (simp add: order_by_published_desc_def sorted_wrt_rev)
qed

lemma select_columns_exposes:
  assumes "j \<in> set (left_join st)"
  shows "exposes st j (select_columns j)"
proof -
  obtain a cc where j: "j = (a, cc)" by (cases j)
  from assms show ?thesis unfolding j
    by (auto simp: left_join_set exposes_def select_columns_def or_empty_def split: option.splits)
qed

text \<open>
  C8, as the code has it. The query always has a result. Every result is the
  left-outer join of the articles with their content: each returned row exposes the
  URL, title, source, description and abstract of a stored article and a content
  text that is the empty string when the article has no content row; every article
  occurs, and exactly once when the content table has at most one row per article.
  The rows are in descending order of publication time (as text, NULL last). The
  order of rows with equal publication time is not determined.
\<close>

theorem fetch_articles_for_embedding_rows:
  "(\<exists>out rows. fetch_articles_for_embedding st out rows) \<and>
   (\<forall>out rows. fetch_articles_for_embedding st out rows \<longrightarrow>
      list_all2 (exposes st) out rows \<and>
      set (map fst out) = set (articles st) \<and>
      (content_ok st \<longrightarrow> mset (map fst out) = mset (articles st) \<and>
                           length rows = length (articles st)) \<and>
      sorted_wrt (\<lambda>x y. r_published_date (fst y) \<le> r_published_date (fst x)) out)"
proof (intro conjI allI impI)
  show "\<exists>out rows. fetch_articles_for_embedding st out rows"
    unfolding fetch_articles_for_embedding_def using order_by_exists by blast
next
  fix out rows
  assume f: "fetch_articles_for_embedding st out rows"
  then have m: "mset out = mset (left_join st)" and rows: "rows = map select_columns out"
    and s: "sorted_wrt (\<lambda>x y. r_published_date (fst y) \<le> r_published_date (fst x)) out"
    by (simp_all add: fetch_articles_for_embedding_def order_by_published_desc_def)
  from m have set_eq: "set out = set (left_join st)" by (rule mset_eq_setD)
  show "list_all2 (exposes st) out rows"
    unfolding rows by (simp add: list_all2_map2 list_all2_same set_eq select_columns_exposes)
  show "set (map fst out) = set (articles st)"
  proof -
    have "fst ` set (left_join st) = set (articles st)"
    proof (intro set_eqI iffI)
      fix a assume "a \<in> fst ` set (left_join st)"
      then show "a \<in> set (articles st)" by (auto simp: left_join_set)
    next
      fix a assume a: "a \<in> set (articles st)"
      show "a \<in> fst ` set (left_join st)"
      proof (cases "r_id a \<in> c_article_id ` set (crawled_content st)")
        case True
        then obtain c where "c \<in> set (crawled_content st)" "c_article_id c = r_id a" by auto
        with a have "(a, Some c) \<in> set (left_join st)" by (simp add: left_join_set)
        then show ?thesis by force
      next
        case False
        with a have "(a, None) \<in> set (left_join st)" by (simp add: left_join_set)
        then show ?thesis by force
      qed
    qed
    with set_eq show ?thesis by simp
  qed
  show "sorted_wrt (\<lambda>x y. r_published_date (fst y) \<le> r_published_date (fst x)) out" by (rule s)
  {
    assume ok: "content_ok st"
    from m have "mset (map fst out) = mset (map fst (left_join st))" by (metis mset_map)
    with ok have a: "mset (map fst out) = mset (articles st)" by (simp add: left_join_fst)
    then have "length (map fst out) = length (articles st)" by (rule mset_eq_length)
    with a show "mset (map fst out) = mset (articles st)" "length rows = length (articles st)"
      by (simp_all add: rows)
  }
qed

text \<open>The two stories in insertion order are a result of the query on their store.\<close>

theorem fetch_articles_for_embedding_rows_witness:
  "list_all2 (exposes two_story_store) [(story_row, None), (later_row, None)]
     (map select_columns [(story_row, None), (later_row, None)]) \<and>
   length (map select_columns [(story_row, None), (later_row, None)]) =
     length (articles two_story_store)"
proof -
  have f: "fetch_articles_for_embedding two_story_store [(story_row, None), (later_row, None)]
             (map select_columns [(story_row, None), (later_row, None)])"
    by (simp add: fetch_articles_for_embedding_def order_by_published_desc_def left_join_def
          two_story_store_def story_row_def later_row_def insert_row_def later_story_def
          hn_story_def)
  have ok: "content_ok two_story_store"
    by (simp add: content_ok_def two_story_store_def)
  from fetch_articles_for_embedding_rows[of two_story_store, THEN conjunct2, rule_format, OF f] ok
  show ?thesis by simp
qed

text \<open>
  C8 as stated fails on the tie order: the two stories have the same (NULL) publication
  time, and the query admits the result that lists the later inserted one first.
\<close>

theorem fetch_tie_order_counterexample:
  "fetch_articles_for_embedding two_story_store [(later_row, None), (story_row, None)]
     (map select_columns [(later_row, None), (story_row, None)]) \<and>
   \<not> ties_by_insertion [(later_row, None), (story_row, None)]"
  by (simp add: fetch_articles_for_embedding_def order_by_published_desc_def left_join_def
        two_story_store_def ties_by_insertion_def story_row_def later_row_def insert_row_def
        later_story_def hn_story_def)

section \<open>The embedding document and the documents chosen for indexing\<close>

lemma build_empty_example: "build_document_for_embedding (Some '''') (Some ''Unknown'') (Some '''') = []"
  by code_simp

lemma build_title_example: "build_document_for_embedding (Some ''T'') (Some ''unknown'') (Some '''') = ''Title: T''"
  by code_simp

lemma dropWhile_all_iff: "(\<forall>c \<in> set (dropWhile P s). P c) \<longleftrightarrow> (\<forall>c \<in> set s. P c)"
proof
  assume a: "\<forall>c \<in> set (dropWhile P s). P c"
  have "dropWhile P s = []"
  proof (rule ccontr)
    assume n: "dropWhile P s \<noteq> []"
    then have "\<not> P (hd (dropWhile P s))" by (rule hd_dropWhile)
    with a n show False by simp
  qed
  then show "\<forall>c \<in> set s. P c" by (simp add: dropWhile_eq_Nil_conv)
next
  assume "\<forall>c \<in> set s. P c"
  then show "\<forall>c \<in> set (dropWhile P s). P c" by (auto dest: set_dropWhileD)
qed

lemma py_strip_Nil_iff: "py_strip s = [] \<longleftrightarrow> (\<forall>c \<in> set s. is_space c)"
  by (simp add: py_strip_def dropWhile_eq_Nil_conv dropWhile_all_iff)

lemma not_space_letters:
  "\<not> is_space CHR ''T''" "\<not> is_space CHR ''S''" "\<not> is_space CHR ''C''"
  by (simp_all add: is_space_def)

lemma py_strip_Cons_nonspace: "\<not> is_space c \<Longrightarrow> py_strip (c # s) \<noteq> []"
  by (auto simp: py_strip_Nil_iff)

lemma build_closed_form:
  "build_document_for_embedding title summary content =
     (if trimmed title \<noteq> [] then ''Title: '' @ trimmed title else []) @
     (if trimmed title \<noteq> [] \<and> (summary_qualifies (trimmed summary) \<or> trimmed content \<noteq> [])
      then blank_line else []) @
     (if summary_qualifies (trimmed summary) then ''Summary: '' @ trimmed summary else []) @
     (if summary_qualifies (trimmed summary) \<and> trimmed content \<noteq> [] then blank_line else []) @
     (if trimmed content \<noteq> [] then ''Content:'' @ [CHR 0x0A] @ trimmed content else [])"
  by (simp add: build_document_for_embedding_def Let_def trimmed_def summary_qualifies_def
        blank_line_def)

lemma build_Nil_iff:
  "build_document_for_embedding title summary content = [] \<longleftrightarrow>
     trimmed title = [] \<and> \<not> summary_qualifies (trimmed summary) \<and> trimmed content = []"
  by (simp add: build_closed_form)

lemma strip_build_Nil_iff:
  "py_strip (build_document_for_embedding title summary content) = [] \<longleftrightarrow>
   build_document_for_embedding title summary content = []"
proof
  assume s: "py_strip (build_document_for_embedding title summary content) = []"
  show "build_document_for_embedding title summary content = []"
  proof (rule ccontr)
    assume "build_document_for_embedding title summary content \<noteq> []"
    then have "\<exists>c rest. \<not> is_space c \<and> build_document_for_embedding title summary content = c # rest"
      unfolding build_closed_form using not_space_letters by (auto split: if_splits)
    then show False using s py_strip_Cons_nonspace by metis
  qed
next
  assume "build_document_for_embedding title summary content = []"
  then show "py_strip (build_document_for_embedding title summary content) = []"
    by (simp add: py_strip_def)
qed

lemma collect_documents_acc:
  "collect_documents rows (ids, docs, metas) =
     (ids @ map e_url (filter (\<lambda>r. doc_text r \<noteq> []) rows),
      docs @ map doc_text (filter (\<lambda>r. doc_text r \<noteq> []) rows),
      metas @ map row_meta (filter (\<lambda>r. doc_text r \<noteq> []) rows))"
proof (induction rows arbitrary: ids docs metas)
  case Nil
  then show ?case by simp
next
  case (Cons r rows)
  have "py_strip (doc_text r) = [] \<longleftrightarrow> doc_text r = []"
    unfolding doc_text_def by (rule strip_build_Nil_iff)
  then show ?case by (simp add: Cons.IH)
qed

text \<open>
  C4. \<open>build_document_for_embedding\<close> returns the sections Title, Summary and Content,
  in that order, of the values that are non-empty after trimming (the Summary
  also left out when its trimmed value in lower case is \<open>unknown\<close>), with one blank
  line between two sections. The result is the empty string exactly when no section
  qualifies. The two examples hold. The ingestion loop indexes exactly the fetched
  rows whose document is non-empty, in their order, so a row with an empty
  document is not indexed.
\<close>

theorem build_document_sections:
  "build_document_for_embedding title summary content =
     (if trimmed title \<noteq> [] then ''Title: '' @ trimmed title else []) @
     (if trimmed title \<noteq> [] \<and> (summary_qualifies (trimmed summary) \<or> trimmed content \<noteq> [])
      then blank_line else []) @
     (if summary_qualifies (trimmed summary) then ''Summary: '' @ trimmed summary else []) @
     (if summary_qualifies (trimmed summary) \<and> trimmed content \<noteq> [] then blank_line else []) @
     (if trimmed content \<noteq> [] then ''Content:'' @ [CHR 0x0A] @ trimmed content else []) \<and>
   (build_document_for_embedding title summary content = [] \<longleftrightarrow>
     trimmed title = [] \<and> \<not> summary_qualifies (trimmed summary) \<and> trimmed content = []) \<and>
   build_document_for_embedding (Some '''') (Some ''Unknown'') (Some '''') = [] \<and>
   build_document_for_embedding (Some ''T'') (Some ''unknown'') (Some '''') = ''Title: T'' \<and>
   collect_documents rows ([], [], []) =
     (map e_url (filter (\<lambda>r. doc_text r \<noteq> []) rows),
      map doc_text (filter (\<lambda>r. doc_text r \<noteq> []) rows),
      map row_meta (filter (\<lambda>r. doc_text r \<noteq> []) rows))"
proof (intro conjI)
  show "build_document_for_embedding title summary content =
     (if trimmed title \<noteq> [] then ''Title: '' @ trimmed title else []) @
     (if trimmed title \<noteq> [] \<and> (summary_qualifies (trimmed summary) \<or> trimmed content \<noteq> [])
      then blank_line else []) @
     (if summary_qualifies (trimmed summary) then ''Summary: '' @ trimmed summary else []) @
     (if summary_qualifies (trimmed summary) \<and> trimmed content \<noteq> [] then blank_line else []) @
     (if trimmed content \<noteq> [] then ''Content:'' @ [CHR 0x0A] @ trimmed content else [])"
    by (rule build_closed_form)
  show "build_document_for_embedding title summary content = [] \<longleftrightarrow>
     trimmed title = [] \<and> \<not> summary_qualifies (trimmed summary) \<and> trimmed content = []"
    by (rule build_Nil_iff)
  show "build_document_for_embedding (Some '''') (Some ''Unknown'') (Some '''') = []"
    by (rule build_empty_example)
  show "build_document_for_embedding (Some ''T'') (Some ''unknown'') (Some '''') = ''Title: T''"
    by (rule build_title_example)
  show "collect_documents rows ([], [], []) =
     (map e_url (filter (\<lambda>r. doc_text r \<noteq> []) rows),
      map doc_text (filter (\<lambda>r. doc_text r \<noteq> []) rows),
      map row_meta (filter (\<lambda>r. doc_text r \<noteq> []) rows))"
    by (simp add: collect_documents_acc)
qed

text \<open>
  A padded title, a summary \<open>Unknown\<close> and a content: the document is the title section,
  a blank line and the content section.
\<close>

theorem build_document_sections_witness:
  "build_document_for_embedding (Some '' T  '') (Some ''Unknown'') (Some ''c'') =
     ''Title: T'' @ blank_line @ ''Content:'' @ [CHR 0x0A] @ ''c''"
proof -
  have t: "trimmed (Some '' T  '') = ''T''" by code_simp
  have s: "\<not> summary_qualifies (trimmed (Some ''Unknown''))" by code_simp
  have c: "trimmed (Some ''c'') = ''c''" by code_simp
  from build_document_sections[of "Some '' T  ''" "Some ''Unknown''" "Some ''c''"]
  show ?thesis unfolding t c using s by simp
qed

end
